theory Spec2Isabelle
  imports Main
begin

section \<open>The host runtime, as far as the library relies on it\<close>

text \<open>
  The library is built on the signals, computed signals and effects of its host
  framework. Computed signals are functions of the state here. An effect is
  registered by a constructor; the host runs it once after registration and again
  after a signal it read has changed, once the code that wrote the signal has
  returned. Each component that registers an effect therefore has the run of its
  effect as a step of its own, next to the calls of its interface.
\<close>

text \<open>
  A writable signal of the host runtime, reduced to what the library relies on: the
  value it holds and a version that advances exactly when a write changes the value.
  \<^verbatim>\<open>set\<close> is equality-gated (\<^verbatim>\<open>Object.is\<close> by default): writing a value equal to the
  current one changes nothing and notifies nobody. HOL equality on \<open>'a\<close> stands for
  the signal's equality function.
\<close>

record 'a cell =
  cur :: 'a
  version :: nat

definition signal :: "'a \<Rightarrow> 'a cell" where
  "signal initialValue = \<lparr>cur = initialValue, version = 0\<rparr>"

definition cell_set :: "'a \<Rightarrow> 'a cell \<Rightarrow> 'a cell" where
  "cell_set v c = (if v = cur c then c else \<lparr>cur = v, version = version c + 1\<rparr>)"


section \<open>Pattern 4: signal history (undo/redo)\<close>

text \<open>
  \<^verbatim>\<open>createHistorySignal(initialValue, maxHistory = 50)\<close> keeps two writable signals,
  \<^verbatim>\<open>history\<close> (an array) and \<^verbatim>\<open>currentIndex\<close>, and closes over \<^verbatim>\<open>maxHistory\<close>.
  The record holds the two signal values and the captured capacity. \<^verbatim>\<open>maxHistory\<close> is a
  caller-supplied number, so it is an \<open>int\<close> (it may be zero or negative); the index is
  only ever incremented from 0 and decremented behind the guard \<^verbatim>\<open>currentIndex() > 0\<close>,
  so it is a \<open>nat\<close>.
\<close>

record 'a HistorySignal =
  history :: "'a list"
  currentIndex :: nat
  maxHistory :: int

definition createHistorySignal :: "'a \<Rightarrow> int \<Rightarrow> 'a HistorySignal" where
  "createHistorySignal initialValue maxHist =
     \<lparr>history = [initialValue], currentIndex = 0, maxHistory = maxHist\<rparr>"

text \<open>The computed signals \<^verbatim>\<open>value\<close>, \<^verbatim>\<open>canUndo\<close> and \<^verbatim>\<open>canRedo\<close>. Reading an array out
  of range gives \<^verbatim>\<open>undefined\<close> in the source, which is \<open>None\<close> here.\<close>

definition current_value :: "'a HistorySignal \<Rightarrow> 'a option" where
  "current_value s =
     (if currentIndex s < length (history s) then Some (history s ! currentIndex s) else None)"

definition canUndo :: "'a HistorySignal \<Rightarrow> bool" where
  "canUndo s = (currentIndex s > 0)"

definition canRedo :: "'a HistorySignal \<Rightarrow> bool" where
  "canRedo s = (int (currentIndex s) < int (length (history s)) - 1)"

text \<open>
  \<^verbatim>\<open>setValue\<close>: \<^verbatim>\<open>slice(0, currentIndex() + 1)\<close> is \<open>take\<close>, \<^verbatim>\<open>push\<close> appends,
  \<^verbatim>\<open>shift()\<close> drops the oldest entry (the array is never empty there). When the
  capacity is exceeded the index is left where it is.
\<close>

definition setValue :: "'a \<Rightarrow> 'a HistorySignal \<Rightarrow> 'a HistorySignal" where
  "setValue newValue s =
     (let newHistory = take (currentIndex s + 1) (history s) @ [newValue] in
      if int (length newHistory) > maxHistory s
      then s\<lparr>history := tl newHistory\<rparr>
      else s\<lparr>history := newHistory, currentIndex := currentIndex s + 1\<rparr>)"

definition undo :: "'a HistorySignal \<Rightarrow> 'a HistorySignal" where
  "undo s = (if canUndo s then s\<lparr>currentIndex := currentIndex s - 1\<rparr> else s)"

definition redo :: "'a HistorySignal \<Rightarrow> 'a HistorySignal" where
  "redo s = (if canRedo s then s\<lparr>currentIndex := currentIndex s + 1\<rparr> else s)"

text \<open>A sequence of \<^verbatim>\<open>setValue\<close> calls, first call first.\<close>

fun setValues :: "'a list \<Rightarrow> 'a HistorySignal \<Rightarrow> 'a HistorySignal" where
  "setValues [] s = s"
| "setValues (v # vs) s = setValues vs (setValue v s)"

section \<open>Concept 10: signal middleware\<close>

text \<open>
  \<^verbatim>\<open>createSignalWithMiddleware(initialValue, middleware)\<close>: the wrapper owns the inner
  signal and the middleware array. The \<^verbatim>\<open>for (const fn of middleware)\<close> loop of
  \<^verbatim>\<open>wrapper.set\<close> is \<open>run_middleware\<close>: \<^verbatim>\<open>prev\<close> is read once before the loop and
  \<^verbatim>\<open>processedValue\<close> is threaded through.
\<close>

record 'a MiddlewareSignal =
  innerSignal :: "'a cell"
  middleware :: "('a \<Rightarrow> 'a \<Rightarrow> 'a) list"

definition createSignalWithMiddleware ::
    "'a \<Rightarrow> ('a \<Rightarrow> 'a \<Rightarrow> 'a) list \<Rightarrow> 'a MiddlewareSignal" where
  "createSignalWithMiddleware initialValue mws =
     \<lparr>innerSignal = signal initialValue, middleware = mws\<rparr>"

fun run_middleware :: "('a \<Rightarrow> 'a \<Rightarrow> 'a) list \<Rightarrow> 'a \<Rightarrow> 'a \<Rightarrow> 'a" where
  "run_middleware [] prev processedValue = processedValue"
| "run_middleware (fn # fns) prev processedValue =
     run_middleware fns prev (fn processedValue prev)"

definition wrapper_read :: "'a MiddlewareSignal \<Rightarrow> 'a" where
  "wrapper_read w = cur (innerSignal w)"

definition wrapper_set :: "'a \<Rightarrow> 'a MiddlewareSignal \<Rightarrow> 'a MiddlewareSignal" where
  "wrapper_set v w =
     (let prev = cur (innerSignal w);
          processedValue = run_middleware (middleware w) prev v
      in w\<lparr>innerSignal := cell_set processedValue (innerSignal w)\<rparr>)"

definition wrapper_update :: "('a \<Rightarrow> 'a) \<Rightarrow> 'a MiddlewareSignal \<Rightarrow> 'a MiddlewareSignal" where
  "wrapper_update updateFn w = wrapper_set (updateFn (cur (innerSignal w))) w"

text \<open>\<^verbatim>\<open>validationMiddleware(validator)\<close>: the value when it is valid, \<^verbatim>\<open>prev\<close> otherwise
  (the \<^verbatim>\<open>console.warn\<close> is not modelled).\<close>

definition validationMiddleware :: "('a \<Rightarrow> bool) \<Rightarrow> 'a \<Rightarrow> 'a \<Rightarrow> 'a" where
  "validationMiddleware validator v prev = (if validator v then v else prev)"

section \<open>Pattern 7: signal set\<close>

text \<open>
  \<^verbatim>\<open>createSignalSet(initial = [], keyFn = String)\<close>: one array signal, handed the
  caller's \<^verbatim>\<open>initial\<close> array as it is, and the captured key function.
\<close>

record 'a SignalSet =
  items :: "'a list"
  keyFn :: "'a \<Rightarrow> string"

definition createSignalSet :: "'a list \<Rightarrow> ('a \<Rightarrow> string) \<Rightarrow> 'a SignalSet" where
  "createSignalSet initial kf = \<lparr>items = initial, keyFn = kf\<rparr>"

definition size_of :: "'a SignalSet \<Rightarrow> nat" where
  "size_of s = length (items s)"

definition has :: "'a \<Rightarrow> 'a SignalSet \<Rightarrow> bool" where
  "has item s = (let key = keyFn s item in list_ex (\<lambda>i. keyFn s i = key) (items s))"

definition add :: "'a \<Rightarrow> 'a SignalSet \<Rightarrow> 'a SignalSet" where
  "add item s = (if \<not> has item s then s\<lparr>items := items s @ [item]\<rparr> else s)"

definition remove_item :: "'a \<Rightarrow> 'a SignalSet \<Rightarrow> 'a SignalSet" where
  "remove_item item s =
     (let key = keyFn s item in s\<lparr>items := filter (\<lambda>i. keyFn s i \<noteq> key) (items s)\<rparr>)"

definition toggle :: "'a \<Rightarrow> 'a SignalSet \<Rightarrow> 'a SignalSet" where
  "toggle item s = (if has item s then remove_item item s else add item s)"

definition clear :: "'a SignalSet \<Rightarrow> 'a SignalSet" where
  "clear s = s\<lparr>items := []\<rparr>"

datatype 'a set_call = Add 'a | Remove 'a | Toggle 'a | Clear

fun apply_call :: "'a set_call \<Rightarrow> 'a SignalSet \<Rightarrow> 'a SignalSet" where
  "apply_call (Add x) s = add x s"
| "apply_call (Remove x) s = remove_item x s"
| "apply_call (Toggle x) s = toggle x s"
| "apply_call Clear s = clear s"

fun apply_calls :: "'a set_call list \<Rightarrow> 'a SignalSet \<Rightarrow> 'a SignalSet" where
  "apply_calls [] s = s"
| "apply_calls (c # cs) s = apply_calls cs (apply_call c s)"

section \<open>Pattern 6: computed with previous value\<close>







section \<open>Pattern 5: persistent store\<close>

text \<open>
  The exceptions of the two library calls the store makes: \<^verbatim>\<open>JSON.parse\<close> throws a
  \<^verbatim>\<open>SyntaxError\<close> on text that is not JSON, \<^verbatim>\<open>JSON.stringify\<close> a \<^verbatim>\<open>TypeError\<close> on a
  value it cannot encode (a cyclic object, a BigInt).
\<close>

datatype exn = SyntaxError | TypeError

text \<open>
  The environment is explicit: \<open>hasWindow\<close> is \<^verbatim>\<open>typeof window !== 'undefined'\<close>,
  \<open>localStorage\<close> is the browser's string-keyed store (\<^verbatim>\<open>getItem\<close> is map lookup,
  \<^verbatim>\<open>null\<close> is \<open>None\<close>), and \<^verbatim>\<open>JSON.parse\<close> and \<^verbatim>\<open>JSON.stringify\<close> at the store's
  value type are the parameters \<open>parse\<close> and \<open>stringify\<close>, \<open>None\<close> where they throw.

  The store's own state is the signal \<^verbatim>\<open>state\<close>, the captured \<^verbatim>\<open>key\<close> and
  \<^verbatim>\<open>initialValue\<close> (\<open>capturedInitial\<close>), and the effect the constructor registers. The host runs a
  registered effect once after registration and again after a signal it read has
  changed, after the writing code has returned: a run is a step of its own
  (\<open>persist_effect\<close>), and \<open>persistSeen\<close> is the version of \<^verbatim>\<open>state\<close> the last run read
  (\<open>None\<close> before the first run).
\<close>

record 'a PersistentStore =
  state :: "'a cell"
  key :: string
  capturedInitial :: 'a
  localStorage :: "string \<rightharpoonup> string"
  persistSeen :: "nat option"

text \<open>
  \<^verbatim>\<open>stored ? JSON.parse(stored) : initialValue\<close>: \<^verbatim>\<open>null\<close> and the empty string are
  falsy; any other string goes to \<^verbatim>\<open>JSON.parse\<close>, outside any \<^verbatim>\<open>try\<close>.
\<close>

definition load_initial :: "(string \<Rightarrow> 'a option) \<Rightarrow> string option \<Rightarrow> 'a \<Rightarrow> exn + 'a" where
  "load_initial parse stored dflt =
     (case stored of
        None \<Rightarrow> Inr dflt
      | Some str \<Rightarrow>
          if str = [] then Inr dflt
          else (case parse str of None \<Rightarrow> Inl SyntaxError | Some v \<Rightarrow> Inr v))"

definition createPersistentStore ::
    "(string \<Rightarrow> 'a option) \<Rightarrow> bool \<Rightarrow> (string \<rightharpoonup> string) \<Rightarrow> string \<Rightarrow> 'a
      \<Rightarrow> exn + 'a PersistentStore" where
  "createPersistentStore parse hasWindow ls k dflt =
     (let stored = (if hasWindow then ls k else None) in
      case load_initial parse stored dflt of
        Inl e \<Rightarrow> Inl e
      | Inr initial \<Rightarrow>
          Inr \<lparr>state = signal initial, key = k, capturedInitial = dflt,
               localStorage = ls, persistSeen = None\<rparr>)"



definition store_reset :: "'a PersistentStore \<Rightarrow> exn option \<times> 'a PersistentStore" where
  "store_reset s = (None, s\<lparr>state := cell_set (capturedInitial s) (state s)\<rparr>)"

definition persist_pending :: "'a PersistentStore \<Rightarrow> bool" where
  "persist_pending s = (persistSeen s \<noteq> Some (version (state s)))"

text \<open>
  One run of the effect: it reads \<^verbatim>\<open>state()\<close>, and in a browser calls
  \<^verbatim>\<open>localStorage.setItem(key, JSON.stringify(state()))\<close>. When \<^verbatim>\<open>JSON.stringify\<close>
  throws, \<^verbatim>\<open>setItem\<close> is not reached and the exception leaves the effect.
\<close>

definition persist_effect ::
    "('a \<Rightarrow> string option) \<Rightarrow> bool \<Rightarrow> 'a PersistentStore \<Rightarrow> exn option \<times> 'a PersistentStore" where
  "persist_effect stringify hasWindow s =
     (let ran = s\<lparr>persistSeen := Some (version (state s))\<rparr> in
      if hasWindow then
        (case stringify (cur (state s)) of
           None \<Rightarrow> (Some TypeError, ran)
         | Some str \<Rightarrow> (None, ran\<lparr>localStorage := (localStorage s)(key s \<mapsto> str)\<rparr>))
      else (None, ran))"

text \<open>The host's scheduler: a pending effect is run, a clean one is left alone.\<close>

definition persist_flush ::
    "('a \<Rightarrow> string option) \<Rightarrow> bool \<Rightarrow> 'a PersistentStore \<Rightarrow> exn option \<times> 'a PersistentStore" where
  "persist_flush stringify hasWindow s =
     (if persist_pending s then persist_effect stringify hasWindow s else (None, s))"

text \<open>
  A three-valued type for the concrete instances below, with the JSON encoding of
  its two encodable values; \<open>Cyclic\<close> stands for a value \<^verbatim>\<open>JSON.stringify\<close> throws on.
\<close>

datatype sample = Zero | One | Cyclic

fun sample_stringify :: "sample \<Rightarrow> string option" where
  "sample_stringify Zero = Some ''0''"
| "sample_stringify One = Some ''1''"
| "sample_stringify Cyclic = None"

definition sample_parse :: "string \<Rightarrow> sample option" where
  "sample_parse str =
     (if str = ''0'' then Some Zero else if str = ''1'' then Some One else None)"

text \<open>
  A store for the concrete instances: the record \<^verbatim>\<open>"0"\<close> was found under the key at
  construction and the effect has run once.
\<close>

definition sample_store :: "sample PersistentStore" where
  "sample_store =
     \<lparr>state = signal Zero, key = ''prefs'', capturedInitial = One,
      localStorage = [''prefs'' \<mapsto> ''0''], persistSeen = Some 0\<rparr>"

section \<open>Pattern 2: resource\<close>

text \<open>
  \<^verbatim>\<open>createResource(fetchFn)\<close> creates the signals \<^verbatim>\<open>data\<close>, \<^verbatim>\<open>loading\<close>, \<^verbatim>\<open>error\<close>
  and \<^verbatim>\<open>refreshTrigger\<close> and registers one effect whose body is an \<^verbatim>\<open>async\<close>
  function. Up to its \<^verbatim>\<open>await\<close> the body runs inside the effect run: it reads
  \<^verbatim>\<open>refreshTrigger\<close>, sets \<^verbatim>\<open>loading\<close> and \<^verbatim>\<open>error\<close> and calls \<^verbatim>\<open>fetchFn()\<close>, inside
  the \<^verbatim>\<open>try\<close>. The rest of the body runs when the promise settles, in a later turn.

  The producer is caller code. A call of it either throws before it returns, or
  returns a promise that settles at some later time with a value or an exception
  (or never). \<open>fetchFn\<close> says which, for each call by its number: \<open>Some e\<close> when the
  call throws \<open>e\<close>, \<open>None\<close> when it returns its promise. The model counts the calls
  (\<open>fetchCalls\<close>), keeps the calls whose promise has not settled (\<open>inFlight\<close>,
  numbered by call) and takes every settlement as an event carrying its outcome.
  \<open>loadSeen\<close> is the value of \<^verbatim>\<open>refreshTrigger\<close> the last effect run read (\<open>None\<close>
  before the first run): the host runs a registered effect once after registration
  and again after a signal it read has changed. \<open>completed\<close> counts the loads that
  have run to their \<^verbatim>\<open>finally\<close> block; the source has no such counter, it is there
  to state what holds before the first completion.
\<close>

record ('a, 'e) Resource =
  fetchFn :: "nat \<Rightarrow> 'e option"
  data :: "'a option"
  loading :: bool
  error :: "'e option"
  refreshTrigger :: nat
  loadSeen :: "nat option"
  fetchCalls :: nat
  inFlight :: "nat list"
  completed :: nat

definition createResource :: "(nat \<Rightarrow> 'e option) \<Rightarrow> ('a, 'e) Resource" where
  "createResource producer =
     \<lparr>fetchFn = producer, data = None, loading = False, error = None, refreshTrigger = 0,
      loadSeen = None, fetchCalls = 0, inFlight = [], completed = 0\<rparr>"

definition refresh :: "('a, 'e) Resource \<Rightarrow> ('a, 'e) Resource" where
  "refresh r = r\<lparr>refreshTrigger := refreshTrigger r + 1\<rparr>"

definition load_pending :: "('a, 'e) Resource \<Rightarrow> bool" where
  "load_pending r = (loadSeen r \<noteq> Some (refreshTrigger r))"

text \<open>
  The effect body up to the \<^verbatim>\<open>await\<close>. When the call returns its promise, the body
  is suspended with the call in flight. When the call throws, the \<^verbatim>\<open>catch\<close> and
  \<^verbatim>\<open>finally\<close> blocks run at once, in the same effect run: \<^verbatim>\<open>error.set(e)\<close>, then
  \<^verbatim>\<open>loading.set(false)\<close>.
\<close>

definition load_start :: "('a, 'e) Resource \<Rightarrow> ('a, 'e) Resource" where
  "load_start r =
     (let call = fetchCalls r + 1;
          started = r\<lparr>loadSeen := Some (refreshTrigger r), loading := True, error := None,
                      fetchCalls := call\<rparr>
      in case fetchFn r call of
           None \<Rightarrow> started\<lparr>inFlight := inFlight r @ [call]\<rparr>
         | Some e \<Rightarrow> started\<lparr>error := Some e, loading := False,
                             completed := completed r + 1\<rparr>)"

definition run_effect :: "('a, 'e) Resource \<Rightarrow> ('a, 'e) Resource" where
  "run_effect r = (if load_pending r then load_start r else r)"

text \<open>
  The effect body after the \<^verbatim>\<open>await\<close>, for call \<open>i\<close>: \<^verbatim>\<open>data.set(result)\<close> or
  \<^verbatim>\<open>error.set(e)\<close>, then the \<^verbatim>\<open>finally\<close> block. The body holds no token of its call
  and compares nothing. A call that is not in flight has no continuation to run.
\<close>

definition settle :: "nat \<Rightarrow> 'e + 'a \<Rightarrow> ('a, 'e) Resource \<Rightarrow> ('a, 'e) Resource" where
  "settle i outcome r =
     (if i \<in> set (inFlight r) then
        (case outcome of
           Inr result \<Rightarrow> r\<lparr>data := Some result, loading := False,
                             inFlight := removeAll i (inFlight r),
                             completed := completed r + 1\<rparr>
         | Inl e \<Rightarrow> r\<lparr>error := Some e, loading := False,
                        inFlight := removeAll i (inFlight r),
                        completed := completed r + 1\<rparr>)
      else r)"

datatype ('a, 'e) resource_event = Refresh | RunEffect | Settle nat "'e + 'a"

fun resource_step :: "('a, 'e) resource_event \<Rightarrow> ('a, 'e) Resource \<Rightarrow> ('a, 'e) Resource" where
  "resource_step Refresh r = refresh r"
| "resource_step RunEffect r = run_effect r"
| "resource_step (Settle i outcome) r = settle i outcome r"

fun resource_run :: "('a, 'e) resource_event list \<Rightarrow> ('a, 'e) Resource \<Rightarrow> ('a, 'e) Resource" where
  "resource_run [] r = r"
| "resource_run (ev # evs) r = resource_run evs (resource_step ev r)"

fun is_settle :: "('a, 'e) resource_event \<Rightarrow> bool" where
  "is_settle (Settle i outcome) = True"
| "is_settle ev = False"

text \<open>
  The invariants of the loader: \<^verbatim>\<open>loading\<close> is true only with a call in flight and
  \<^verbatim>\<open>error\<close> cleared, and nothing is in \<^verbatim>\<open>data\<close> or \<^verbatim>\<open>error\<close> before a load completes.
\<close>

definition loading_inv :: "('a, 'e) Resource \<Rightarrow> bool" where
  "loading_inv r = (if loading r then inFlight r \<noteq> [] \<and> error r = None else True)"

definition fresh_inv :: "('a, 'e) Resource \<Rightarrow> bool" where
  "fresh_inv r = (if completed r = 0 then data r = None \<and> error r = None else True)"

text \<open>Two producers for the concrete instances: one whose calls all return their
  promise, one whose calls all throw.\<close>

definition promising :: "nat \<Rightarrow> string option" where
  "promising call = None"

definition throwing :: "nat \<Rightarrow> string option" where
  "throwing call = Some ''offline''"

section \<open>Pattern 3: debounced signal\<close>

text \<open>
  \<^verbatim>\<open>createDebouncedSignal(initialValue, delayMs)\<close> creates the signals \<^verbatim>\<open>input\<close> and
  \<^verbatim>\<open>output\<close>, the closure variable \<^verbatim>\<open>timeoutId\<close> and one effect. Time is a clock in
  milliseconds. \<open>timeoutId\<close> is the timer that is still to fire, with the time it is
  due and the value its callback captured; \<^verbatim>\<open>clearTimeout\<close> and firing both make it
  \<open>None\<close> (the source keeps the stale id, on which \<^verbatim>\<open>clearTimeout\<close> does nothing).
  \<open>debounceSeen\<close> is the version of \<^verbatim>\<open>input\<close> the last effect run read. The
  fields \<open>inputSignal\<close> and \<open>outputSignal\<close> are the source's \<^verbatim>\<open>input\<close> and \<^verbatim>\<open>output\<close>.

  Two logs are kept for stating properties, the source has neither: \<open>writes\<close>, the
  time and value of every \<^verbatim>\<open>input.set\<close> call, and \<open>changes\<close>, the time and value of
  every change of \<^verbatim>\<open>output\<close>.
\<close>

record 'a DebouncedSignal =
  inputSignal :: "'a cell"
  outputSignal :: "'a cell"
  timeoutId :: "(nat \<times> 'a) option"
  delayMs :: nat
  debounceSeen :: "nat option"
  clock :: nat
  writes :: "(nat \<times> 'a) list"
  changes :: "(nat \<times> 'a) list"

definition createDebouncedSignal :: "'a \<Rightarrow> nat \<Rightarrow> 'a DebouncedSignal" where
  "createDebouncedSignal initialValue delay =
     \<lparr>inputSignal = signal initialValue, outputSignal = signal initialValue, timeoutId = None,
      delayMs = delay, debounceSeen = None, clock = 0, writes = [], changes = []\<rparr>"

text \<open>
  One run of the effect: read \<^verbatim>\<open>input\<close>, clear the pending timer, start a new one
  that is due \<^verbatim>\<open>delayMs\<close> from now and carries the value read.
\<close>

definition debounce_effect :: "'a DebouncedSignal \<Rightarrow> 'a DebouncedSignal" where
  "debounce_effect s =
     s\<lparr>debounceSeen := Some (version (inputSignal s)),
       timeoutId := Some (clock s + delayMs s, cur (inputSignal s))\<rparr>"

definition debounce_flush :: "'a DebouncedSignal \<Rightarrow> 'a DebouncedSignal" where
  "debounce_flush s =
     (if debounceSeen s \<noteq> Some (version (inputSignal s)) then debounce_effect s else s)"

text \<open>
  \<^verbatim>\<open>input.set(v)\<close>, followed by the host's effect flush, which is taken at the time of
  the write: the host runs pending effects once the writing turn is over, before
  it gets to timers.
\<close>

definition input_set :: "'a \<Rightarrow> 'a DebouncedSignal \<Rightarrow> 'a DebouncedSignal" where
  "input_set v s =
     debounce_flush (s\<lparr>inputSignal := cell_set v (inputSignal s), writes := writes s @ [(clock s, v)]\<rparr>)"

text \<open>
  The timer callback \<^verbatim>\<open>output.set(value)\<close>. A timer runs no earlier than it is due;
  when it is not due yet, or none is pending, nothing happens.
\<close>

definition fire :: "'a DebouncedSignal \<Rightarrow> 'a DebouncedSignal" where
  "fire s =
     (case timeoutId s of
        None \<Rightarrow> s
      | Some (due, v) \<Rightarrow>
          if due \<le> clock s then
            s\<lparr>outputSignal := cell_set v (outputSignal s), timeoutId := None,
              changes := (if v = cur (outputSignal s) then changes s
                          else changes s @ [(clock s, v)])\<rparr>
          else s)"

definition wait :: "nat \<Rightarrow> 'a DebouncedSignal \<Rightarrow> 'a DebouncedSignal" where
  "wait dt s = s\<lparr>clock := clock s + dt\<rparr>"

datatype 'a debounce_event = Write 'a | Wait nat | Fire | Flush

fun debounce_step :: "'a debounce_event \<Rightarrow> 'a DebouncedSignal \<Rightarrow> 'a DebouncedSignal" where
  "debounce_step (Write v) s = input_set v s"
| "debounce_step (Wait dt) s = wait dt s"
| "debounce_step Fire s = fire s"
| "debounce_step Flush s = debounce_flush s"

fun debounce_run :: "'a debounce_event list \<Rightarrow> 'a DebouncedSignal \<Rightarrow> 'a DebouncedSignal" where
  "debounce_run [] s = s"
| "debounce_run (ev # evs) s = debounce_run evs (debounce_step ev s)"

text \<open>
  Conditions on a log of writes, oldest first: consecutive writes are less than
  \<open>d\<close> apart, and every write changes the value before it (the first one the
  initial value).
\<close>

fun rapid :: "nat \<Rightarrow> (nat \<times> 'a) list \<Rightarrow> bool" where
  "rapid d [] = True"
| "rapid d [w] = True"
| "rapid d (w1 # w2 # ws) = (fst w2 < fst w1 + d \<and> rapid d (w2 # ws))"

fun changing :: "'a \<Rightarrow> 'a list \<Rightarrow> bool" where
  "changing prev [] = True"
| "changing prev (v # vs) = (v \<noteq> prev \<and> changing v vs)"

text \<open>
  The invariant of the debounced signal under such writes. Before the first write
  nothing but a timer carrying the initial value can be pending. After a write,
  either the timer of the last write is pending and \<^verbatim>\<open>output\<close> has not moved, or it
  has fired, at least \<open>delayMs\<close> after that write, and \<^verbatim>\<open>output\<close> holds the value
  written last.
\<close>

definition quiet :: "'a \<Rightarrow> 'a DebouncedSignal \<Rightarrow> bool" where
  "quiet init s = (cur (outputSignal s) = init \<and> changes s = [])"

definition debounce_inv :: "'a \<Rightarrow> 'a DebouncedSignal \<Rightarrow> bool" where
  "debounce_inv init s =
     (case writes s of
        [] \<Rightarrow>
          cur (inputSignal s) = init \<and> quiet init s
          \<and> (debounceSeen s = None \<or> debounceSeen s = Some (version (inputSignal s)))
          \<and> (case timeoutId s of None \<Rightarrow> True | Some (due, v) \<Rightarrow> v = init)
      | w # ws \<Rightarrow>
          (let tw = fst (last (writes s)); vw = snd (last (writes s)) in
           cur (inputSignal s) = vw \<and> tw \<le> clock s
           \<and> debounceSeen s = Some (version (inputSignal s))
           \<and> (case timeoutId s of
                 Some (due, v) \<Rightarrow> due = tw + delayMs s \<and> v = vw \<and> quiet init s
               | None \<Rightarrow>
                   tw + delayMs s \<le> clock s \<and> cur (outputSignal s) = vw
                   \<and> (case changes s of
                         [] \<Rightarrow> True
                       | c # cs \<Rightarrow> cs = [] \<and> snd c = vw \<and> tw + delayMs s \<le> fst c))))"


section \<open>Signal history: the length of the log\<close>

lemma setValue_tail_inv:
  "currentIndex s + 1 = length (history s) \<Longrightarrow>
   currentIndex (setValue v s) + 1 = length (history (setValue v s))"
  by (simp add: setValue_def Let_def)

lemma setValue_length:
  "currentIndex s + 1 = length (history s) \<Longrightarrow>
   length (history (setValue v s)) =
     (if int (length (history s)) + 1 > maxHistory s then length (history s)
      else length (history s) + 1)"
  by (simp add: setValue_def Let_def)

lemma setValue_maxHistory: "maxHistory (setValue v s) = maxHistory s"
  by (simp add: setValue_def Let_def)

lemma setValues_length_below:
  "currentIndex s + 1 = length (history s) \<Longrightarrow>
   int (length (history s)) + int (length vs) \<le> maxHistory s \<Longrightarrow>
   length (history (setValues vs s)) = length (history s) + length vs"
proof (induction vs arbitrary: s)
  case Nil
  then show ?case by simp
next
  case (Cons v vs)
  have inv: "currentIndex (setValue v s) + 1 = length (history (setValue v s))"
    using Cons.prems(1) by (rule setValue_tail_inv)
  have len: "length (history (setValue v s)) = length (history s) + 1"
    using Cons.prems by (simp add: setValue_length)
  have "length (history (setValues vs (setValue v s))) =
        length (history (setValue v s)) + length vs"
    using inv Cons.prems(2) len by (intro Cons.IH) (simp_all add: setValue_maxHistory)
  then show ?case using len by simp
qed

text \<open>
  Claim C6, as the code has it: for every capacity \<open>k\<close> and every \<open>n < k\<close>, after \<open>n\<close>
  \<^verbatim>\<open>setValue\<close> calls on a history signal created with capacity \<open>k\<close> (no undo or redo
  in between) the log has \<open>n + 1\<close> entries, the initial value included. The bound is
  strict: the log never grows beyond \<open>k\<close> entries, so the \<open>k\<close>-th write already evicts
  the oldest entry.
\<close>

theorem history_length_below_capacity:
  "int (length vs) < k \<Longrightarrow>
   length (history (setValues vs (createHistorySignal a k))) = length vs + 1"
  using setValues_length_below [of "createHistorySignal a k" vs]
  by (simp add: createHistorySignal_def)

theorem history_length_below_capacity_witness:
  "int (length [1::nat, 2]) < 5 \<and>
   length (history (setValues [1::nat, 2] (createHistorySignal 0 5))) = length [1::nat, 2] + 1"
  using history_length_below_capacity [of "[1::nat, 2]" 5 0] by simp

text \<open>
  Claim C6 as stated, with \<open>n \<le> k\<close>, fails at \<open>n = k\<close>: with capacity 2, the second
  write makes three entries, one more than the capacity, and the oldest is
  dropped. The log is \<open>[1, 2]\<close>, of length 2 and not 3.
\<close>

theorem history_length_at_capacity_counterexample:
  "int (length [1::nat, 2]) \<le> 2
   \<and> history (setValues [1::nat, 2] (createHistorySignal 0 2)) = [1, 2]
   \<and> length (history (setValues [1::nat, 2] (createHistorySignal 0 2))) \<noteq> length [1::nat, 2] + 1"
  by (simp add: createHistorySignal_def setValue_def Let_def)

section \<open>Signal middleware: the committed value\<close>

lemma run_middleware_foldl:
  "run_middleware fns prev v = foldl (\<lambda>acc fn. fn acc prev) v fns"
  by (induction fns arbitrary: v) simp_all

lemma cur_cell_set: "cur (cell_set v c) = v"
  by (simp add: cell_set_def)


text \<open>
  Claim C7: for every middleware list and every call \<^verbatim>\<open>set(v)\<close> on the wrapper, the
  value the inner signal holds afterwards is the left-to-right fold of the list over
  \<open>v\<close>, every function being given the value the signal held before the call as its
  second argument. With the single validator that rejects negative numbers and the
  signal at 5, \<^verbatim>\<open>set(-1)\<close> leaves 5 and \<^verbatim>\<open>set(10)\<close> gives 10.
\<close>

theorem middleware_fold:
  "wrapper_read (wrapper_set v w) =
     foldl (\<lambda>acc fn. fn acc (wrapper_read w)) v (middleware w)
   \<and> wrapper_read (wrapper_set (-1)
        (createSignalWithMiddleware (5::int) [validationMiddleware (\<lambda>n. n \<ge> 0)])) = 5
   \<and> wrapper_read (wrapper_set 10
        (createSignalWithMiddleware (5::int) [validationMiddleware (\<lambda>n. n \<ge> 0)])) = 10"
  by (simp add: wrapper_read_def wrapper_set_def Let_def cur_cell_set run_middleware_foldl
      createSignalWithMiddleware_def signal_def validationMiddleware_def)

section \<open>Signal set: unique keys\<close>

lemma has_iff: "has x s \<longleftrightarrow> keyFn s x \<in> set (map (keyFn s) (items s))"
  unfolding has_def Let_def list_ex_iff set_map image_iff by (metis (no_types))

lemma keyFn_call: "keyFn (apply_call c s) = keyFn s"
  by (cases c) (simp_all add: add_def remove_item_def toggle_def clear_def Let_def)

lemma distinct_call:
  "distinct (map (keyFn s) (items s)) \<Longrightarrow>
   distinct (map (keyFn s) (items (apply_call c s)))"
  by (cases c)
     (auto simp: add_def remove_item_def toggle_def clear_def Let_def has_iff
        distinct_map_filter)

lemma distinct_calls:
  "distinct (map (keyFn s) (items s)) \<Longrightarrow>
   distinct (map (keyFn s) (items (apply_calls cs s)))"
proof (induction cs arbitrary: s)
  case Nil
  then show ?case by simp
next
  case (Cons c cs)
  have "distinct (map (keyFn (apply_call c s)) (items (apply_call c s)))"
    using Cons.prems by (simp add: keyFn_call distinct_call)
  then have "distinct (map (keyFn (apply_call c s)) (items (apply_calls cs (apply_call c s))))"
    by (rule Cons.IH)
  then show ?case by (simp add: keyFn_call)
qed

text \<open>
  Claim C9, as the code has it: on a signal set created from initial items with
  pairwise different keys (the default, no items, is one), after any sequence of
  \<^verbatim>\<open>add\<close>, \<^verbatim>\<open>toggle\<close>, \<^verbatim>\<open>remove\<close> and \<^verbatim>\<open>clear\<close> calls no two elements of \<^verbatim>\<open>items()\<close>
  have equal keys.
\<close>

theorem signal_set_unique_keys:
  "distinct (map kf initial) \<Longrightarrow>
   distinct (map kf (items (apply_calls cs (createSignalSet initial kf))))"
  using distinct_calls [of "createSignalSet initial kf" cs]
  by (simp add: createSignalSet_def)

theorem signal_set_unique_keys_witness:
  "distinct (map (\<lambda>x. x) [''a'']) \<and>
   distinct (map (\<lambda>x. x)
     (items (apply_calls [Add ''b'', Add ''a'', Toggle ''b'', Add ''c'']
        (createSignalSet [''a''] (\<lambda>x. x)))))"
  using signal_set_unique_keys [of "\<lambda>x. x" "[''a'']"
      "[Add ''b'', Add ''a'', Toggle ''b'', Add ''c'']"]
  by simp

text \<open>
  Claim C9 as stated, for every signal set, fails on a set created from an array
  that already holds two items with one key: the constructor stores the array as
  it is, and \<^verbatim>\<open>add\<close> and \<^verbatim>\<open>toggle\<close> of other items leave the two in place.
\<close>

theorem signal_set_unique_keys_counterexample:
  "items (apply_calls [Add ''b'', Toggle ''c'']
          (createSignalSet [''a'', ''a''] (\<lambda>x. x))) = [''a'', ''a'', ''b'', ''c'']
   \<and> \<not> distinct (map (\<lambda>x. x)
        (items (apply_calls [Add ''b'', Toggle ''c'']
          (createSignalSet [''a'', ''a''] (\<lambda>x. x)))))"
  by (simp add: createSignalSet_def add_def toggle_def has_def remove_item_def Let_def)

section \<open>Computed with previous value: a throwing compute function\<close>







section \<open>Persistent store: construction\<close>

text \<open>
  Claim C4, as the code has it: in a browser, when the external store holds no
  record under the key, or holds the empty string, \<^verbatim>\<open>state()\<close> is the default; when
  it holds a non-empty record that fails to parse, the parser's \<^verbatim>\<open>SyntaxError\<close>
  leaves the constructor and no store is built; when the record parses,
  \<^verbatim>\<open>state()\<close> is the parsed value. Outside a browser \<^verbatim>\<open>state()\<close> is the default.
\<close>

theorem persistent_store_construction:
  "(ls k = None \<or> ls k = Some [] \<longrightarrow>
      (\<exists>s. createPersistentStore parse True ls k dflt = Inr s \<and> cur (state s) = dflt))
   \<and> (\<forall>str. ls k = Some str \<and> str \<noteq> [] \<and> parse str = None \<longrightarrow>
         createPersistentStore parse True ls k dflt = Inl SyntaxError)
   \<and> (\<forall>str v. ls k = Some str \<and> str \<noteq> [] \<and> parse str = Some v \<longrightarrow>
         (\<exists>s. createPersistentStore parse True ls k dflt = Inr s \<and> cur (state s) = v))
   \<and> (\<exists>s. createPersistentStore parse False ls k dflt = Inr s \<and> cur (state s) = dflt)"
  by (auto simp: createPersistentStore_def load_initial_def signal_def)

theorem persistent_store_construction_witness:
  "(Map.empty :: string \<rightharpoonup> string) ''prefs'' = None
   \<and> (\<exists>s. createPersistentStore sample_parse True Map.empty ''prefs'' One = Inr s
          \<and> cur (state s) = One)
   \<and> [''prefs'' \<mapsto> ''{''] ''prefs'' = Some ''{'' \<and> ''{'' \<noteq> [] \<and> sample_parse ''{'' = None
   \<and> createPersistentStore sample_parse True [''prefs'' \<mapsto> ''{''] ''prefs'' One = Inl SyntaxError
   \<and> [''prefs'' \<mapsto> ''0''] ''prefs'' = Some ''0'' \<and> ''0'' \<noteq> [] \<and> sample_parse ''0'' = Some Zero
   \<and> (\<exists>s. createPersistentStore sample_parse True [''prefs'' \<mapsto> ''0''] ''prefs'' One = Inr s
          \<and> cur (state s) = Zero)"
  using persistent_store_construction [of Map.empty "''prefs''" sample_parse One]
    persistent_store_construction [of "[''prefs'' \<mapsto> ''{'']" "''prefs''" sample_parse One]
    persistent_store_construction [of "[''prefs'' \<mapsto> ''0'']" "''prefs''" sample_parse One]
  by (simp add: sample_parse_def)

text \<open>
  Claim C4 as stated, a malformed record is treated like an absent one and
  construction does not throw, fails on the record \<^verbatim>\<open>{\<close>: the text is not empty, it
  goes to the parser, and the constructor ends with the parser's exception instead
  of a store holding the default.
\<close>

theorem persistent_store_malformed_counterexample:
  "sample_parse ''{'' = None
   \<and> createPersistentStore sample_parse True [''prefs'' \<mapsto> ''{''] ''prefs'' Zero
       = Inl SyntaxError"
  by (simp add: sample_parse_def createPersistentStore_def load_initial_def)

section \<open>Persistent store: a value that does not serialise\<close>


lemma sample_store_reached:
  "createPersistentStore sample_parse True [''prefs'' \<mapsto> ''0''] ''prefs'' One =
     Inr (sample_store\<lparr>persistSeen := None\<rparr>)
   \<and> persist_flush sample_stringify True (sample_store\<lparr>persistSeen := None\<rparr>) =
       (None, sample_store)"
  by (simp add: createPersistentStore_def load_initial_def sample_parse_def sample_store_def
      persist_flush_def persist_pending_def persist_effect_def signal_def Let_def)




section \<open>Resource: the first load\<close>

text \<open>
  Claim C1, as the code has it: for every producer, the signals of a resource are
  created as \<^verbatim>\<open>data() == null\<close>, \<^verbatim>\<open>loading() == false\<close>, \<^verbatim>\<open>error() == null\<close>, with the
  producer not yet called and the effect registered and due to run. The producer
  is first called by the first run of that effect, which needs no \<^verbatim>\<open>refresh()\<close>.
  After that run the producer has been called once and \<^verbatim>\<open>data()\<close> is still null;
  when the call returned its promise, the call is in flight, \<^verbatim>\<open>loading()\<close> is true
  and \<^verbatim>\<open>error()\<close> is null; when the call threw, nothing is in flight, \<^verbatim>\<open>loading()\<close>
  is false and \<^verbatim>\<open>error()\<close> is the exception.
\<close>

theorem resource_initial_state:
  "data (createResource producer) = None \<and> loading (createResource producer) = False
   \<and> error (createResource producer) = None
   \<and> fetchCalls (createResource producer) = 0
   \<and> load_pending (createResource producer)
   \<and> fetchCalls (run_effect (createResource producer)) = 1
   \<and> data (run_effect (createResource producer)) = None
   \<and> loading (run_effect (createResource producer)) = (producer 1 = None)
   \<and> error (run_effect (createResource producer)) = producer 1
   \<and> inFlight (run_effect (createResource producer)) = (if producer 1 = None then [1] else [])"
  by (simp add: createResource_def run_effect_def load_pending_def load_start_def Let_def
      split: option.splits)

text \<open>
  Claim C1 as stated, the producer is not invoked until \<^verbatim>\<open>refresh()\<close> is called for
  the first time, fails on the history that consists of the effect's first run
  alone, for a producer whose call returns its promise: no \<^verbatim>\<open>refresh()\<close> has been
  called, the producer has been called once and \<^verbatim>\<open>loading()\<close> is true.
\<close>

theorem resource_first_load_counterexample:
  "Refresh \<notin> set [RunEffect :: (nat, string) resource_event]
   \<and> fetchCalls (resource_run [RunEffect] (createResource promising :: (nat, string) Resource)) = 1
   \<and> loading (resource_run [RunEffect] (createResource promising :: (nat, string) Resource)) = True"
  by (simp add: createResource_def run_effect_def load_pending_def load_start_def Let_def
      promising_def)

text \<open>
  The other branch of the first run, at a producer whose call throws: the load is
  over within the run, with the exception in \<^verbatim>\<open>error()\<close> and \<^verbatim>\<open>loading()\<close> false.
\<close>

lemma resource_throwing_producer:
  "fetchCalls (resource_run [RunEffect] (createResource throwing :: (nat, string) Resource)) = 1
   \<and> loading (resource_run [RunEffect] (createResource throwing :: (nat, string) Resource)) = False
   \<and> error (resource_run [RunEffect] (createResource throwing :: (nat, string) Resource))
       = Some ''offline''
   \<and> inFlight (resource_run [RunEffect] (createResource throwing :: (nat, string) Resource)) = []
   \<and> completed (resource_run [RunEffect] (createResource throwing :: (nat, string) Resource)) = 1"
  by (simp add: createResource_def run_effect_def load_pending_def load_start_def Let_def
      throwing_def)

section \<open>Resource: the state invariant\<close>

lemma loading_inv_step: "loading_inv r \<Longrightarrow> loading_inv (resource_step ev r)"
  by (cases ev)
     (auto simp: loading_inv_def refresh_def run_effect_def load_start_def settle_def Let_def
           split: sum.splits if_splits option.splits)

lemma loading_inv_run: "loading_inv r \<Longrightarrow> loading_inv (resource_run evs r)"
  by (induction evs arbitrary: r) (simp_all add: loading_inv_step)

lemma fresh_inv_step: "fresh_inv r \<Longrightarrow> fresh_inv (resource_step ev r)"
  by (cases ev)
     (auto simp: fresh_inv_def refresh_def run_effect_def load_start_def settle_def Let_def
           split: sum.splits if_splits option.splits)

lemma fresh_inv_run: "fresh_inv r \<Longrightarrow> fresh_inv (resource_run evs r)"
  by (induction evs arbitrary: r) (simp_all add: fresh_inv_step)

lemma fetchFn_step: "fetchFn (resource_step ev r) = fetchFn r"
  by (cases ev)
     (auto simp: refresh_def run_effect_def load_start_def settle_def Let_def
           split: sum.splits option.splits)

lemma unsettled_step:
  "\<not> is_settle ev \<Longrightarrow> \<forall>call. fetchFn r call = None \<Longrightarrow> completed r = 0 \<Longrightarrow>
   completed (resource_step ev r) = 0"
  by (cases ev) (simp_all add: refresh_def run_effect_def load_start_def Let_def)

lemma unsettled_run:
  "\<not> list_ex is_settle evs \<Longrightarrow> \<forall>call. fetchFn r call = None \<Longrightarrow> completed r = 0 \<Longrightarrow>
   completed (resource_run evs r) = 0"
proof (induction evs arbitrary: r)
  case Nil
  then show ?case by simp
next
  case (Cons ev evs)
  from Cons.prems have ev: "\<not> is_settle ev" and rest: "\<not> list_ex is_settle evs"
    by simp_all
  have "completed (resource_step ev r) = 0"
    using ev Cons.prems(2,3) by (rule unsettled_step)
  moreover have "\<forall>call. fetchFn (resource_step ev r) call = None"
    using Cons.prems(2) by (simp add: fetchFn_step)
  ultimately show ?case using rest by (simp add: Cons.IH)
qed

text \<open>
  Claim C2, as the code has it: for every producer, every resource and every
  sequence of \<^verbatim>\<open>refresh()\<close> calls, effect runs and load completions, \<^verbatim>\<open>loading()\<close> is
  true only while a load is in flight, \<^verbatim>\<open>error()\<close> is null whenever \<^verbatim>\<open>loading()\<close> is
  true, and \<^verbatim>\<open>data()\<close> and \<^verbatim>\<open>error()\<close> are both null until the first load completes;
  in particular they are null after every sequence in which no promise has settled,
  when no call of the producer throws. Nothing is said of \<^verbatim>\<open>data()\<close> while loading
  or after a failed load: the loader never clears it.
\<close>

theorem resource_invariant:
  "(loading (resource_run evs (createResource producer)) \<longrightarrow>
      inFlight (resource_run evs (createResource producer)) \<noteq> []
      \<and> error (resource_run evs (createResource producer)) = None)
   \<and> (completed (resource_run evs (createResource producer)) = 0 \<longrightarrow>
      data (resource_run evs (createResource producer)) = None
      \<and> error (resource_run evs (createResource producer)) = None)
   \<and> (\<not> list_ex is_settle evs \<and> (\<forall>call. producer call = None) \<longrightarrow>
      data (resource_run evs (createResource producer)) = None
      \<and> error (resource_run evs (createResource producer)) = None)"
proof -
  let ?r0 = "createResource producer :: ('a, 'b) Resource"
  have "loading_inv ?r0"
    by (simp add: loading_inv_def createResource_def)
  then have l: "loading_inv (resource_run evs ?r0)"
    by (rule loading_inv_run)
  have "fresh_inv ?r0"
    by (simp add: fresh_inv_def createResource_def)
  then have f: "fresh_inv (resource_run evs ?r0)"
    by (rule fresh_inv_run)
  have "\<not> list_ex is_settle evs \<Longrightarrow> \<forall>call. producer call = None \<Longrightarrow>
      completed (resource_run evs ?r0) = 0"
    by (rule unsettled_run) (simp_all add: createResource_def)
  with l f show ?thesis
    by (auto simp: loading_inv_def fresh_inv_def split: if_splits)
qed

theorem resource_invariant_witness:
  "loading (resource_run [RunEffect, Settle 1 (Inl ''down''), Refresh, RunEffect]
       (createResource promising :: (nat, string) Resource))
   \<and> inFlight (resource_run [RunEffect, Settle 1 (Inl ''down''), Refresh, RunEffect]
       (createResource promising :: (nat, string) Resource)) \<noteq> []
   \<and> error (resource_run [RunEffect, Settle 1 (Inl ''down''), Refresh, RunEffect]
       (createResource promising :: (nat, string) Resource)) = None
   \<and> completed (resource_run [RunEffect, Refresh, RunEffect]
       (createResource promising :: (nat, string) Resource)) = 0
   \<and> \<not> list_ex is_settle [RunEffect :: (nat, string) resource_event, Refresh, RunEffect]
   \<and> (\<forall>call. promising call = None)
   \<and> data (resource_run [RunEffect, Refresh, RunEffect]
       (createResource promising :: (nat, string) Resource)) = None
   \<and> error (resource_run [RunEffect, Refresh, RunEffect]
       (createResource promising :: (nat, string) Resource)) = None"
  using resource_invariant
      [of "[RunEffect, Settle 1 (Inl ''down''), Refresh, RunEffect] :: (nat, string) resource_event list"
          promising]
    resource_invariant
      [of "[RunEffect, Refresh, RunEffect] :: (nat, string) resource_event list" promising]
  by (simp add: createResource_def run_effect_def load_pending_def load_start_def settle_def
      refresh_def promising_def Let_def)

text \<open>
  Claim C2 as stated fails twice on one history. A first load succeeds with 7 and
  a second is started: \<^verbatim>\<open>loading()\<close> is true and \<^verbatim>\<open>data()\<close> is still 7, not null. The
  second load then fails: no load is in flight, and \<^verbatim>\<open>data()\<close> and \<^verbatim>\<open>error()\<close> are
  both non-null.
\<close>

theorem resource_invariant_counterexample:
  "loading (resource_run [RunEffect, Settle 1 (Inr 7), Refresh, RunEffect]
       (createResource promising :: (nat, string) Resource))
   \<and> data (resource_run [RunEffect, Settle 1 (Inr 7), Refresh, RunEffect]
       (createResource promising :: (nat, string) Resource)) = Some 7
   \<and> inFlight (resource_run
        [RunEffect, Settle 1 (Inr 7), Refresh, RunEffect, Settle 2 (Inl ''down'')]
       (createResource promising :: (nat, string) Resource)) = []
   \<and> data (resource_run
        [RunEffect, Settle 1 (Inr 7), Refresh, RunEffect, Settle 2 (Inl ''down'')]
       (createResource promising :: (nat, string) Resource)) = Some 7
   \<and> error (resource_run
        [RunEffect, Settle 1 (Inr 7), Refresh, RunEffect, Settle 2 (Inl ''down'')]
       (createResource promising :: (nat, string) Resource)) = Some ''down''"
  by (simp add: createResource_def run_effect_def load_pending_def load_start_def settle_def
      refresh_def promising_def Let_def)

section \<open>Resource: overlapping loads\<close>

lemma resource_run_snoc:
  "resource_run (evs @ [ev]) r = resource_step ev (resource_run evs r)"
  by (induction evs arbitrary: r) simp_all

lemma settle_success:
  "i \<in> set (inFlight r) \<Longrightarrow>
   settle i (Inr v) r =
     r\<lparr>data := Some v, loading := False, inFlight := removeAll i (inFlight r),
       completed := completed r + 1\<rparr>"
  by (simp add: settle_def)

lemma settle_failure:
  "i \<in> set (inFlight r) \<Longrightarrow>
   settle i (Inl e) r =
     r\<lparr>error := Some e, loading := False, inFlight := removeAll i (inFlight r),
       completed := completed r + 1\<rparr>"
  by (simp add: settle_def)

lemma settle_keeps_other:
  "j \<in> set (inFlight r) \<Longrightarrow> i \<noteq> j \<Longrightarrow> j \<in> set (inFlight (settle i outcome r))"
  by (cases outcome) (simp_all add: settle_def)

text \<open>
  Claim C3, as the code has it: the loader keeps no generation token and compares
  nothing at completion. Every completion of a load in flight, whatever else is
  in flight and whenever it was started, writes \<^verbatim>\<open>data\<close> (on success, leaving
  \<^verbatim>\<open>error\<close>) or \<^verbatim>\<open>error\<close> (on failure, leaving \<^verbatim>\<open>data\<close>) and sets \<^verbatim>\<open>loading\<close> to false,
  and the other loads stay in flight. So when two loads overlap, the completion
  that arrives last wins, in either order of arrival: after both have succeeded
  \<^verbatim>\<open>data()\<close> is the result of the one that completed last, after both have failed
  \<^verbatim>\<open>error()\<close> is the exception of the one that completed last, whichever of the two
  was started last. The same holds of every history of the loader followed by
  the completion of a load in flight.
\<close>

theorem resource_last_completion_wins:
  "(i \<in> set (inFlight r) \<longrightarrow>
      data (settle i (Inr v) r) = Some v
      \<and> error (settle i (Inr v) r) = error r
      \<and> loading (settle i (Inr v) r) = False
      \<and> error (settle i (Inl e) r) = Some e
      \<and> data (settle i (Inl e) r) = data r
      \<and> loading (settle i (Inl e) r) = False)
   \<and> (i \<in> set (inFlight r) \<and> j \<in> set (inFlight r) \<and> i \<noteq> j \<longrightarrow>
      j \<in> set (inFlight (settle i (Inr v) r))
      \<and> j \<in> set (inFlight (settle i (Inl e) r))
      \<and> data (settle j (Inr w) (settle i (Inr v) r)) = Some w
      \<and> data (settle i (Inr v) (settle j (Inr w) r)) = Some v
      \<and> error (settle j (Inl f) (settle i (Inl e) r)) = Some f
      \<and> error (settle i (Inl e) (settle j (Inl f) r)) = Some e
      \<and> loading (settle j (Inr w) (settle i (Inr v) r)) = False
      \<and> loading (settle i (Inr v) (settle j (Inr w) r)) = False)
   \<and> (i \<in> set (inFlight (resource_run evs (createResource producer))) \<longrightarrow>
      data (resource_run (evs @ [Settle i (Inr v)]) (createResource producer)) = Some v
      \<and> loading (resource_run (evs @ [Settle i (Inr v)]) (createResource producer)) = False
      \<and> error (resource_run (evs @ [Settle i (Inl e)]) (createResource producer)) = Some e
      \<and> loading (resource_run (evs @ [Settle i (Inl e)]) (createResource producer)) = False)"
proof -
  have single: "\<And>k (s :: ('a, 'b) Resource) x y. k \<in> set (inFlight s) \<Longrightarrow>
      data (settle k (Inr x) s) = Some x \<and> error (settle k (Inr x) s) = error s
      \<and> loading (settle k (Inr x) s) = False
      \<and> error (settle k (Inl y) s) = Some y \<and> data (settle k (Inl y) s) = data s
      \<and> loading (settle k (Inl y) s) = False"
    by (simp add: settle_success settle_failure)
  have pair: "i \<in> set (inFlight r) \<Longrightarrow> j \<in> set (inFlight r) \<Longrightarrow> i \<noteq> j \<Longrightarrow>
      j \<in> set (inFlight (settle i (Inr v) r))
      \<and> j \<in> set (inFlight (settle i (Inl e) r))
      \<and> data (settle j (Inr w) (settle i (Inr v) r)) = Some w
      \<and> data (settle i (Inr v) (settle j (Inr w) r)) = Some v
      \<and> error (settle j (Inl f) (settle i (Inl e) r)) = Some f
      \<and> error (settle i (Inl e) (settle j (Inl f) r)) = Some e
      \<and> loading (settle j (Inr w) (settle i (Inr v) r)) = False
      \<and> loading (settle i (Inr v) (settle j (Inr w) r)) = False"
  proof -
    assume i: "i \<in> set (inFlight r)" and j: "j \<in> set (inFlight r)" and ne: "i \<noteq> j"
    have j1: "j \<in> set (inFlight (settle i (Inr v) r))"
      and j2: "j \<in> set (inFlight (settle i (Inl e) r))"
      using j ne by (simp_all add: settle_keeps_other)
    have i1: "i \<in> set (inFlight (settle j (Inr w) r))"
      and i2: "i \<in> set (inFlight (settle j (Inl f) r))"
      using i ne by (simp_all add: settle_keeps_other)
    show ?thesis
      using single [OF j1] single [OF j2] single [OF i1] single [OF i2] j1 j2 by simp
  qed
  show ?thesis
    using single [of i r v e] pair
      single [of i "resource_run evs (createResource producer)" v e]
    by (simp add: resource_run_snoc)
qed

theorem resource_last_completion_wins_witness:
  "1 \<in> set (inFlight (resource_run [RunEffect, Refresh, RunEffect]
        (createResource promising :: (nat, string) Resource)))
   \<and> 2 \<in> set (inFlight (resource_run [RunEffect, Refresh, RunEffect]
        (createResource promising :: (nat, string) Resource)))
   \<and> (1::nat) \<noteq> 2
   \<and> data (settle 1 (Inr 10) (resource_run [RunEffect, Refresh, RunEffect]
        (createResource promising :: (nat, string) Resource))) = Some 10
   \<and> loading (settle 1 (Inr 10) (resource_run [RunEffect, Refresh, RunEffect]
        (createResource promising :: (nat, string) Resource))) = False
   \<and> 2 \<in> set (inFlight (settle 1 (Inr 10) (resource_run [RunEffect, Refresh, RunEffect]
        (createResource promising :: (nat, string) Resource))))
   \<and> data (settle 2 (Inr 20) (settle 1 (Inr 10) (resource_run [RunEffect, Refresh, RunEffect]
        (createResource promising :: (nat, string) Resource)))) = Some 20
   \<and> data (settle 1 (Inr 10) (settle 2 (Inr 20) (resource_run [RunEffect, Refresh, RunEffect]
        (createResource promising :: (nat, string) Resource)))) = Some 10
   \<and> data (resource_run ([RunEffect, Refresh, RunEffect] @ [Settle 1 (Inr 10)])
        (createResource promising :: (nat, string) Resource)) = Some 10"
  using resource_last_completion_wins
      [of 1 "resource_run [RunEffect, Refresh, RunEffect]
               (createResource promising :: (nat, string) Resource)"
          10 "''x''" 2 20 "''y''" "[RunEffect, Refresh, RunEffect]" promising]
  by (simp add: createResource_def run_effect_def load_pending_def load_start_def refresh_def
      promising_def Let_def)

text \<open>
  Claim C3 as stated, the completion of the load started last wins and an earlier
  load's late completion overwrites nothing, fails with two overlapping loads.
  When load 1 completes while load 2 is in flight, \<^verbatim>\<open>data()\<close> becomes its result 10
  and \<^verbatim>\<open>loading()\<close> becomes false with load 2 still in flight. When load 2 completes
  first with 20 and load 1 after it with 10, \<^verbatim>\<open>data()\<close> ends as 10, the result of
  the load started first.
\<close>

theorem resource_stale_counterexample:
  "inFlight (resource_run [RunEffect, Refresh, RunEffect]
       (createResource promising :: (nat, string) Resource)) = [1, 2]
   \<and> data (resource_run [RunEffect, Refresh, RunEffect, Settle 1 (Inr 10)]
       (createResource promising :: (nat, string) Resource)) = Some 10
   \<and> loading (resource_run [RunEffect, Refresh, RunEffect, Settle 1 (Inr 10)]
       (createResource promising :: (nat, string) Resource)) = False
   \<and> inFlight (resource_run [RunEffect, Refresh, RunEffect, Settle 1 (Inr 10)]
       (createResource promising :: (nat, string) Resource)) = [2]
   \<and> data (resource_run [RunEffect, Refresh, RunEffect, Settle 2 (Inr 20), Settle 1 (Inr 10)]
       (createResource promising :: (nat, string) Resource)) = Some 10"
  by (simp add: createResource_def run_effect_def load_pending_def load_start_def settle_def
      refresh_def promising_def Let_def)

section \<open>Debounced signal: one change after the last write\<close>

lemma rapid_snoc:
  "rapid d (ws @ [w]) = (rapid d ws \<and> (ws = [] \<or> fst w < fst (last ws) + d))"
  by (induction d ws rule: rapid.induct) auto

lemma changing_snoc:
  "changing p (vs @ [v]) = (changing p vs \<and> v \<noteq> (if vs = [] then p else last vs))"
  by (induction p vs rule: changing.induct) auto

lemma debounce_run_snoc:
  "debounce_run (evs @ [ev]) s = debounce_step ev (debounce_run evs s)"
  by (induction evs arbitrary: s) simp_all

lemma inv_create: "debounce_inv init (createDebouncedSignal init d)"
  by (simp add: debounce_inv_def createDebouncedSignal_def signal_def quiet_def)

lemma inv_wait: "debounce_inv init s \<Longrightarrow> debounce_inv init (wait dt s)"
  by (auto simp: debounce_inv_def wait_def quiet_def Let_def split: list.splits option.splits)

lemma inv_flush: "debounce_inv init s \<Longrightarrow> debounce_inv init (debounce_flush s)"
  by (auto simp: debounce_inv_def debounce_flush_def debounce_effect_def quiet_def Let_def
      split: list.splits option.splits)

lemma inv_fire: "debounce_inv init s \<Longrightarrow> debounce_inv init (fire s)"
  by (auto simp: debounce_inv_def fire_def quiet_def Let_def cell_set_def
      split: list.splits option.splits)

lemma inv_write:
  assumes "debounce_inv init s"
    and "writes s = [] \<or> clock s < fst (last (writes s)) + delayMs s"
    and "v \<noteq> cur (inputSignal s)"
  shows "debounce_inv init (input_set v s)"
  using assms
  by (auto simp: debounce_inv_def input_set_def debounce_flush_def debounce_effect_def
      quiet_def Let_def cell_set_def split: list.splits option.splits)

lemma delayMs_step: "delayMs (debounce_step ev s) = delayMs s"
  by (cases ev)
     (auto simp: input_set_def debounce_flush_def debounce_effect_def fire_def wait_def
           split: option.splits)

lemma delayMs_run: "delayMs (debounce_run evs s) = delayMs s"
  by (induction evs arbitrary: s) (simp_all add: delayMs_step)

lemma writes_input_set: "writes (input_set v s) = writes s @ [(clock s, v)]"
  by (simp add: input_set_def debounce_flush_def debounce_effect_def)

lemma writes_other:
  "writes (wait dt s) = writes s" "writes (fire s) = writes s"
  "writes (debounce_flush s) = writes s"
  by (auto simp: wait_def fire_def debounce_flush_def debounce_effect_def split: option.splits)

lemma inv_last_input:
  "debounce_inv init s \<Longrightarrow>
   cur (inputSignal s) = (if writes s = [] then init else snd (last (writes s)))"
  by (auto simp: debounce_inv_def Let_def split: list.splits)

lemma inv_run:
  "rapid d (writes (debounce_run evs (createDebouncedSignal init d))) \<Longrightarrow>
   changing init (map snd (writes (debounce_run evs (createDebouncedSignal init d)))) \<Longrightarrow>
   debounce_inv init (debounce_run evs (createDebouncedSignal init d))"
proof (induction evs rule: rev_induct)
  case Nil
  show ?case by (simp add: inv_create)
next
  case (snoc ev evs)
  let ?s = "debounce_run evs (createDebouncedSignal init d)"
  have d: "delayMs ?s = d"
    by (simp add: delayMs_run createDebouncedSignal_def)
  show ?case
  proof (cases ev)
    case (Write v)
    from snoc.prems have r: "rapid d (writes ?s @ [(clock ?s, v)])"
      and c: "changing init (map snd (writes ?s) @ [v])"
      by (simp_all add: debounce_run_snoc Write writes_input_set)
    from r have r0: "rapid d (writes ?s)"
      and gap: "writes ?s = [] \<or> clock ?s < fst (last (writes ?s)) + d"
      by (simp_all add: rapid_snoc)
    from c have c0: "changing init (map snd (writes ?s))"
      and ne: "v \<noteq> (if writes ?s = [] then init else snd (last (writes ?s)))"
      by (auto simp: changing_snoc last_map)
    have inv: "debounce_inv init ?s" using r0 c0 by (rule snoc.IH)
    have "v \<noteq> cur (inputSignal ?s)" using ne inv_last_input [OF inv] by simp
    then have "debounce_inv init (input_set v ?s)"
      using inv gap d by (intro inv_write) simp_all
    then show ?thesis by (simp add: debounce_run_snoc Write)
  next
    case (Wait dt)
    from snoc.prems have "debounce_inv init ?s"
      by (intro snoc.IH) (simp_all add: debounce_run_snoc Wait writes_other)
    then show ?thesis by (simp add: debounce_run_snoc Wait inv_wait)
  next
    case Fire
    from snoc.prems have "debounce_inv init ?s"
      by (intro snoc.IH) (simp_all add: debounce_run_snoc Fire writes_other)
    then show ?thesis by (simp add: debounce_run_snoc Fire inv_fire)
  next
    case Flush
    from snoc.prems have "debounce_inv init ?s"
      by (intro snoc.IH) (simp_all add: debounce_run_snoc Flush writes_other)
    then show ?thesis by (simp add: debounce_run_snoc Flush inv_flush)
  qed
qed

lemma inv_changes:
  "debounce_inv init s \<Longrightarrow>
   changes s = [] \<or>
   (writes s \<noteq> [] \<and>
    (\<exists>t. changes s = [(t, snd (last (writes s)))] \<and> fst (last (writes s)) + delayMs s \<le> t))"
  by (auto simp: debounce_inv_def quiet_def Let_def split: list.splits option.splits)

text \<open>
  Claim C8, as the code has it: for every sequence of writes to a debounced
  signal's input in which every write changes the input's value and consecutive
  writes are strictly less than the delay \<open>d\<close> apart, whatever the interleaving with
  the passing of time, timer callbacks and effect flushes, the output changes at
  most once, to the value written last, and no earlier than \<open>d\<close> after the last
  write. A write of the value the input already holds notifies nobody: the effect
  does not run again and the pending timer keeps its due time.
\<close>

theorem debounce_single_change:
  "rapid d (writes (debounce_run evs (createDebouncedSignal init d))) \<Longrightarrow>
   changing init (map snd (writes (debounce_run evs (createDebouncedSignal init d)))) \<Longrightarrow>
   changes (debounce_run evs (createDebouncedSignal init d)) = [] \<or>
   (writes (debounce_run evs (createDebouncedSignal init d)) \<noteq> [] \<and>
    (\<exists>t. changes (debounce_run evs (createDebouncedSignal init d)) =
            [(t, snd (last (writes (debounce_run evs (createDebouncedSignal init d)))))]
         \<and> fst (last (writes (debounce_run evs (createDebouncedSignal init d)))) + d \<le> t))"
proof -
  let ?s = "debounce_run evs (createDebouncedSignal init d)"
  assume "rapid d (writes ?s)" and "changing init (map snd (writes ?s))"
  then have "debounce_inv init ?s" by (rule inv_run)
  from inv_changes [OF this] show ?thesis
    by (simp add: delayMs_run createDebouncedSignal_def)
qed

theorem debounce_single_change_witness:
  "rapid 10 (writes (debounce_run
       [Write 1, Wait 5, Write 2, Wait 9, Fire, Write 3, Wait 10, Fire]
       (createDebouncedSignal (0::nat) 10)))
   \<and> changing 0 (map snd (writes (debounce_run
       [Write 1, Wait 5, Write 2, Wait 9, Fire, Write 3, Wait 10, Fire]
       (createDebouncedSignal (0::nat) 10))))
   \<and> changes (debounce_run [Write 1, Wait 5, Write 2, Wait 9, Fire, Write 3, Wait 10, Fire]
       (createDebouncedSignal (0::nat) 10)) = [(24, 3)]
   \<and> last (writes (debounce_run [Write 1, Wait 5, Write 2, Wait 9, Fire, Write 3, Wait 10, Fire]
       (createDebouncedSignal (0::nat) 10))) = (14, 3)"
  using debounce_single_change
      [of 10 "[Write 1, Wait 5, Write 2, Wait 9, Fire, Write 3, Wait 10, Fire]" "0::nat"]
  by (simp add: createDebouncedSignal_def input_set_def debounce_flush_def debounce_effect_def
      fire_def wait_def cell_set_def signal_def)

text \<open>
  Claim C8 as stated, for every sequence of writes, fails when a write repeats the
  value the input holds. With delay 10, the value 1 is written at time 0 and again
  at time 5. The second write changes nothing, so the timer of the first write
  stays due at 10 and fires there: the output changes at time 10, which is 5 after
  the last write and earlier than \<open>5 + 10\<close>.
\<close>

theorem debounce_single_change_counterexample:
  "writes (debounce_run [Write 1, Wait 5, Write 1, Wait 5, Fire]
       (createDebouncedSignal (0::nat) 10)) = [(0, 1), (5, 1)]
   \<and> rapid 10 [(0::nat, 1::nat), (5, 1)]
   \<and> changes (debounce_run [Write 1, Wait 5, Write 1, Wait 5, Fire]
       (createDebouncedSignal (0::nat) 10)) = [(10, 1)]
   \<and> (10::nat) < 5 + 10"
  by (simp add: createDebouncedSignal_def input_set_def debounce_flush_def debounce_effect_def
      fire_def wait_def cell_set_def signal_def)

end
